theory Spec2Isabelle
  imports Complex_Main
begin

section \<open>The double-key hash table of \<^verbatim>\<open>double_key_table.py\<close>\<close>

text \<open>
  A shallow embedding of class \<^verbatim>\<open>DoubleKeyTable\<close>. Every exception the Python
  raises is a value of type \<open>error\<close>; a method that may raise returns
  \<open>error + 'a\<close>, and a method that contains the \<^verbatim>\<open>while True\<close> loop returns
  \<open>(error + 'a) option\<close>, where \<open>None\<close> stands for a call that never returns.
\<close>

subsection \<open>Exceptions and Python values\<close>

datatype error =
    KeyError
  | FullError
  | IndexError
  | TypeError
  | AttributeError
  | ZeroDivisionError
  | NotImplementedError

text \<open>
  What the expression \<^verbatim>\<open>x.table_size\<close> evaluates to: an integer, or a bound
  method object (an attribute that is a plain \<^verbatim>\<open>def\<close> and is not called).
\<close>

datatype pyval = PyInt int | PyMethod

text \<open>\<^verbatim>\<open>x % m\<close> for an integer \<open>x\<close>.\<close>

definition py_mod :: "int \<Rightarrow> pyval \<Rightarrow> error + int" where
  "py_mod x m =
     (case m of
        PyMethod \<Rightarrow> Inl TypeError
      | PyInt n \<Rightarrow> if n = 0 then Inl ZeroDivisionError else Inr (x mod n))"

text \<open>\<^verbatim>\<open>m - k\<close> for an integer \<open>k\<close>.\<close>

definition py_sub :: "pyval \<Rightarrow> int \<Rightarrow> error + pyval" where
  "py_sub m k =
     (case m of
        PyMethod \<Rightarrow> Inl TypeError
      | PyInt n \<Rightarrow> Inr (PyInt (n - k)))"

subsection \<open>The collaborators: \<^verbatim>\<open>ArrayR\<close> and \<^verbatim>\<open>LinearProbeTable\<close>\<close>

text \<open>
  Modelled from the spec: \<^verbatim>\<open>ArrayR\<close> (module \<^verbatim>\<open>data_structures.referential_array\<close>),
  the "fixed-size, index-addressable storage with no dynamic resizing of its own". An
  array of \<open>n\<close> slots is a list of length \<open>n\<close>, every slot \<^verbatim>\<open>None\<close> at first; an index
  outside \<open>0..<n\<close> raises \<^verbatim>\<open>IndexError\<close>. The class indexes it only with values of
  \<^verbatim>\<open>range\<close> and with hash values, which are never negative. A length is a natural
  number: the sizes of a size sequence are capacities, and allocation always succeeds.
\<close>

definition ArrayR :: "nat \<Rightarrow> 'a option list" where
  "ArrayR n = replicate n None"

definition array_get :: "'a list \<Rightarrow> int \<Rightarrow> error + 'a" where
  "array_get xs i = (if 0 \<le> i \<and> i < int (length xs) then Inr (xs ! nat i) else Inl IndexError)"

definition array_set :: "'a list \<Rightarrow> int \<Rightarrow> 'a \<Rightarrow> error + 'a list" where
  "array_set xs i v =
     (if 0 \<le> i \<and> i < int (length xs) then Inr (xs[nat i := v]) else Inl IndexError)"

text \<open>
  Modelled from the spec: \<^verbatim>\<open>LinearProbeTable\<close> (module \<^verbatim>\<open>data_structures.hash_table\<close>),
  the inner table: "fixed-capacity array of slots, each holding either empty or
  (K2, V)", with "a live-entry count". The class reads an occupied inner slot as
  \<^verbatim>\<open>slot[0] == key1\<close> and \<^verbatim>\<open>slot[1][0] == key2\<close>, so an entry is
  \<open>(key1, (key2, value))\<close>. Keys are strings.
\<close>

type_synonym 'v entry = "string \<times> string \<times> 'v"

record 'v LinearProbeTable =
  slots :: "'v entry option list"
  count :: int

text \<open>
  Modelled from the spec: \<^verbatim>\<open>LinearProbeTable[sub_table_size, ...]()\<close>, a fresh inner
  table ("initial capacity = first value in the size sequence, or a caller-supplied
  per-level size") with no live entry.
\<close>

definition new_LinearProbeTable :: "nat \<Rightarrow> 'v LinearProbeTable" where
  "new_LinearProbeTable sub_table_size = \<lparr>slots = ArrayR sub_table_size, count = 0\<rparr>"

text \<open>
  Modelled from the spec: \<^verbatim>\<open>sub_table.table_size\<close>, the capacity of the inner table,
  and \<^verbatim>\<open>len(sub_table)\<close>, the modulus of the probe ("advance by 1 (wrap at
  capacity)"). On \<^verbatim>\<open>None\<close> the attribute access raises \<^verbatim>\<open>AttributeError\<close> and
  \<^verbatim>\<open>len\<close> raises \<^verbatim>\<open>TypeError\<close>.
\<close>

definition sub_table_size_attr :: "'v LinearProbeTable option \<Rightarrow> error + pyval" where
  "sub_table_size_attr sub_table =
     (case sub_table of
        None \<Rightarrow> Inl AttributeError
      | Some s \<Rightarrow> Inr (PyInt (int (length (slots s)))))"

definition sub_len :: "'v LinearProbeTable option \<Rightarrow> error + pyval" where
  "sub_len sub_table =
     (case sub_table of
        None \<Rightarrow> Inl TypeError
      | Some s \<Rightarrow> Inr (PyInt (int (length (slots s)))))"

text \<open>
  Modelled from the spec: \<^verbatim>\<open>sub_table[sub_index]\<close> with an integer, the slot at that
  position; subscripting \<^verbatim>\<open>None\<close> raises \<^verbatim>\<open>TypeError\<close>.
\<close>

definition sub_slot :: "'v LinearProbeTable option \<Rightarrow> int \<Rightarrow> error + 'v entry option" where
  "sub_slot sub_table sub_index =
     (case sub_table of
        None \<Rightarrow> Inl TypeError
      | Some s \<Rightarrow> array_get (slots s) sub_index)"

text \<open>
  Modelled from the spec: \<^verbatim>\<open>key2 in sub_table\<close> and \<^verbatim>\<open>sub_table[key2]\<close> with a key,
  the inner table as a map from K2 to V: the value of the first occupied slot that
  holds \<open>key2\<close>, \<^verbatim>\<open>KeyError\<close> when there is none.
\<close>

definition sub_lookup :: "'v LinearProbeTable \<Rightarrow> string \<Rightarrow> 'v option" where
  "sub_lookup s key2 =
     (case filter (\<lambda>e. fst (snd e) = key2) (List.map_filter id (slots s)) of
        [] \<Rightarrow> None
      | e # _ \<Rightarrow> Some (snd (snd e)))"

definition sub_contains :: "'v LinearProbeTable \<Rightarrow> string \<Rightarrow> bool" where
  "sub_contains s key2 = (sub_lookup s key2 \<noteq> None)"

definition sub_getitem :: "'v LinearProbeTable \<Rightarrow> string \<Rightarrow> error + 'v" where
  "sub_getitem s key2 = (case sub_lookup s key2 of None \<Rightarrow> Inl KeyError | Some v \<Rightarrow> Inr v)"

subsection \<open>The table\<close>

record 'v DoubleKeyTable =
  TABLE_SIZES :: "nat list"
  size_index :: nat
  table :: "'v LinearProbeTable option list"
  num_entries :: int
  load_factor :: real

text \<open>The class attributes \<^verbatim>\<open>TABLE_SIZES\<close> (the default size sequence) and \<^verbatim>\<open>HASH_BASE\<close>.\<close>

definition DEFAULT_TABLE_SIZES :: "nat list" where
  "DEFAULT_TABLE_SIZES =
     [5, 13, 29, 53, 97, 193, 389, 769, 1543, 3079, 6151, 12289, 24593, 49157, 98317,
      196613, 393241, 786433, 1572869]"

definition HASH_BASE :: int where
  "HASH_BASE = 31"

subsection \<open>Construction\<close>

text \<open>\<^verbatim>\<open>xs[i]\<close> on a Python list, for an index of \<^verbatim>\<open>range\<close>.\<close>

definition list_get :: "'a list \<Rightarrow> nat \<Rightarrow> error + 'a" where
  "list_get xs i = (if i < length xs then Inr (xs ! i) else Inl IndexError)"

text \<open>
  The \<^verbatim>\<open>for i in range(len(self.TABLE_SIZES))\<close> loop of \<^verbatim>\<open>__init__\<close>, over the
  indices still to visit. The assignment of \<^verbatim>\<open>self.table[i].hash\<close> stores a closure
  that no method of the class calls; it is not part of the state.
\<close>

fun init_fill ::
  "nat list \<Rightarrow> nat list option \<Rightarrow> nat list \<Rightarrow> 'v LinearProbeTable option list
    \<Rightarrow> error + 'v LinearProbeTable option list" where
  "init_fill sizes internal_sizes [] tbl = Inr tbl"
| "init_fill sizes internal_sizes (i # rest) tbl =
     (case (case internal_sizes of
              Some isz \<Rightarrow> list_get isz i
            | None \<Rightarrow> list_get sizes i) of
        Inl e \<Rightarrow> Inl e
      | Inr sub_table_size \<Rightarrow>
          (case array_set tbl (int i) (Some (new_LinearProbeTable sub_table_size)) of
             Inl e \<Rightarrow> Inl e
           | Inr tbl' \<Rightarrow> init_fill sizes internal_sizes rest tbl'))"

definition init ::
  "nat list option \<Rightarrow> nat list option \<Rightarrow> error + 'v DoubleKeyTable" where
  "init sizes internal_sizes =
     (let ts = (case sizes of None \<Rightarrow> DEFAULT_TABLE_SIZES | Some s \<Rightarrow> s) in
      case list_get ts 0 of
        Inl e \<Rightarrow> Inl e
      | Inr cap \<Rightarrow>
          (case init_fill ts internal_sizes [0..<length ts] (ArrayR cap) of
             Inl e \<Rightarrow> Inl e
           | Inr tbl \<Rightarrow>
               Inr \<lparr>TABLE_SIZES = ts, size_index = 0, table = tbl,
                    num_entries = 0, load_factor = 0\<rparr>))"

subsection \<open>Hashing\<close>

text \<open>
  \<^verbatim>\<open>self.table_size\<close> inside \<^verbatim>\<open>hash1\<close>: the class defines \<^verbatim>\<open>table_size\<close> as a plain
  method (no \<^verbatim>\<open>@property\<close>) and \<^verbatim>\<open>hash1\<close> does not call it, so the expression is
  the bound method itself, whatever the table holds.
\<close>

definition table_size_attr :: "'v DoubleKeyTable \<Rightarrow> error + pyval" where
  "table_size_attr self = Inr PyMethod"

text \<open>
  The loop \<^verbatim>\<open>for char in key\<close> shared by \<^verbatim>\<open>hash1\<close> and \<^verbatim>\<open>hash2\<close>; \<open>ts\<close> is what the
  table-size expression of the method evaluates to.
\<close>

fun hash_chars :: "(error + pyval) \<Rightarrow> string \<Rightarrow> int \<Rightarrow> int \<Rightarrow> error + int" where
  "hash_chars ts [] val a = Inr val"
| "hash_chars ts (char # rest) val a =
     (case ts of
        Inl e \<Rightarrow> Inl e
      | Inr m \<Rightarrow>
          (case py_mod (of_char char + a * val) m of
             Inl e \<Rightarrow> Inl e
           | Inr val' \<Rightarrow>
               (case py_sub m 1 of
                  Inl e \<Rightarrow> Inl e
                | Inr m1 \<Rightarrow>
                    (case py_mod (a * HASH_BASE) m1 of
                       Inl e \<Rightarrow> Inl e
                     | Inr a' \<Rightarrow> hash_chars ts rest val' a'))))"

definition hash1 :: "'v DoubleKeyTable \<Rightarrow> string \<Rightarrow> error + int" where
  "hash1 self key = hash_chars (table_size_attr self) key 0 31415"

definition hash2 :: "string \<Rightarrow> 'v LinearProbeTable option \<Rightarrow> error + int" where
  "hash2 key sub_table = hash_chars (sub_table_size_attr sub_table) key 0 31415"

subsection \<open>Probing\<close>

text \<open>
  The \<^verbatim>\<open>while True\<close> loop of \<^verbatim>\<open>_linear_probe\<close>. Each iteration starts by assigning
  \<^verbatim>\<open>sub_index = self.hash2(key2, sub_table)\<close>, so no variable is carried from one
  iteration to the next.
\<close>

partial_function (option) probe_loop ::
  "string \<Rightarrow> string \<Rightarrow> bool \<Rightarrow> int \<Rightarrow> 'v LinearProbeTable option \<Rightarrow> (error + int \<times> int) option"
  where
  "probe_loop key1 key2 is_insert top_index sub_table =
     (case hash2 key2 sub_table of
        Inl e \<Rightarrow> Some (Inl e)
      | Inr sub_index \<Rightarrow>
          (case sub_slot sub_table sub_index of
             Inl e \<Rightarrow> Some (Inl e)
           | Inr slot \<Rightarrow>
               if \<not> is_insert \<and> slot = None then Some (Inl KeyError)
               else if slot = None then Some (Inr (top_index, sub_index))
               else if fst (the slot) = key1 \<and> fst (snd (the slot)) = key2
                 then Some (Inr (top_index, sub_index))
               else
                 (case sub_len sub_table of
                    Inl e \<Rightarrow> Some (Inl e)
                  | Inr n \<Rightarrow>
                      (case py_mod (sub_index + 1) n of
                         Inl e \<Rightarrow> Some (Inl e)
                       | Inr sub_index' \<Rightarrow>
                           (case hash2 key2 sub_table of
                              Inl e \<Rightarrow> Some (Inl e)
                            | Inr h \<Rightarrow>
                                if sub_index' = h then Some (Inl FullError)
                                else probe_loop key1 key2 is_insert top_index sub_table)))))"

definition linear_probe ::
  "'v DoubleKeyTable \<Rightarrow> string \<Rightarrow> string \<Rightarrow> bool \<Rightarrow> (error + int \<times> int) option" where
  "linear_probe self key1 key2 is_insert =
     (case hash1 self key1 of
        Inl e \<Rightarrow> Some (Inl e)
      | Inr top_index \<Rightarrow>
          (case array_get (table self) top_index of
             Inl e \<Rightarrow> Some (Inl e)
           | Inr sub_table \<Rightarrow> probe_loop key1 key2 is_insert top_index sub_table))"

subsection \<open>Lookup\<close>

text \<open>
  \<^verbatim>\<open>__getitem__\<close>. The three reads of \<^verbatim>\<open>self.table[index1]\<close> see the same array and
  are one \<open>array_get\<close> here.
\<close>

definition getitem :: "'v DoubleKeyTable \<Rightarrow> string \<times> string \<Rightarrow> (error + 'v) option" where
  "getitem self key =
     (case linear_probe self (fst key) (snd key) False of
        None \<Rightarrow> None
      | Some (Inl e) \<Rightarrow> Some (Inl e)
      | Some (Inr (index1, index2)) \<Rightarrow>
          (case array_get (table self) index1 of
             Inl e \<Rightarrow> Some (Inl e)
           | Inr None \<Rightarrow> Some (Inl KeyError)
           | Inr (Some s) \<Rightarrow>
               if sub_contains s (snd key) then Some (sub_getitem s (snd key))
               else Some (Inl KeyError)))"

text \<open>\<^verbatim>\<open>__contains__\<close>: the \<^verbatim>\<open>try\<close> catches \<^verbatim>\<open>KeyError\<close> and nothing else.\<close>

definition contains :: "'v DoubleKeyTable \<Rightarrow> string \<times> string \<Rightarrow> (error + bool) option" where
  "contains self key =
     (case getitem self key of
        None \<Rightarrow> None
      | Some (Inl e) \<Rightarrow> if e = KeyError then Some (Inr False) else Some (Inl e)
      | Some (Inr _) \<Rightarrow> Some (Inr True))"

subsection \<open>The methods whose body is \<^verbatim>\<open>raise NotImplementedError()\<close>\<close>

text \<open>
  A mutating method returns the table as the call leaves it, together with the outcome.
  \<^verbatim>\<open>__setitem__\<close> and \<^verbatim>\<open>__delitem__\<close> raise in their first statement.
\<close>

definition setitem ::
  "'v DoubleKeyTable \<Rightarrow> string \<times> string \<Rightarrow> 'v \<Rightarrow> 'v DoubleKeyTable \<times> (error + unit)" where
  "setitem self key data = (self, Inl NotImplementedError)"

definition delitem ::
  "'v DoubleKeyTable \<Rightarrow> string \<times> string \<Rightarrow> 'v DoubleKeyTable \<times> (error + unit)" where
  "delitem self key = (self, Inl NotImplementedError)"

definition table_size :: "'v DoubleKeyTable \<Rightarrow> error + int" where
  "table_size self = Inl NotImplementedError"

definition len :: "'v DoubleKeyTable \<Rightarrow> error + int" where
  "len self = Inl NotImplementedError"

subsection \<open>Derived notions used by the properties\<close>

text \<open>\<^verbatim>\<open>table[key] = data\<close> followed by \<^verbatim>\<open>table[key]\<close>; the read happens only if the write returns.\<close>

definition set_then_get ::
  "'v DoubleKeyTable \<Rightarrow> string \<times> string \<Rightarrow> 'v \<Rightarrow> (error + 'v) option" where
  "set_then_get self key data =
     (case setitem self key data of
        (self', Inl e) \<Rightarrow> Some (Inl e)
      | (self', Inr _) \<Rightarrow> getitem self' key)"

text \<open>The live entries of the inner tables: by their counters, and by their occupied slots.\<close>

definition counted_total :: "'v DoubleKeyTable \<Rightarrow> int" where
  "counted_total self =
     sum_list (map (\<lambda>slot. case slot of None \<Rightarrow> 0 | Some s \<Rightarrow> count s) (table self))"

definition occupied_total :: "'v DoubleKeyTable \<Rightarrow> int" where
  "occupied_total self =
     sum_list (map (\<lambda>slot. case slot of None \<Rightarrow> 0
                          | Some s \<Rightarrow> int (length (filter (\<lambda>x. x \<noteq> None) (slots s))))
                   (table self))"

text \<open>
  The states a caller can reach: a table that \<^verbatim>\<open>__init__\<close> returned, then any number of
  \<^verbatim>\<open>__setitem__\<close> and \<^verbatim>\<open>__delitem__\<close> calls, whether they raise or not.
\<close>

inductive reachable :: "'v DoubleKeyTable \<Rightarrow> bool" where
  constructed: "init sizes internal_sizes = Inr self \<Longrightarrow> reachable self"
| after_set: "reachable self \<Longrightarrow> setitem self key data = (self', r) \<Longrightarrow> reachable self'"
| after_delete: "reachable self \<Longrightarrow> delitem self key = (self', r) \<Longrightarrow> reachable self'"

text \<open>
  The condition under which an iteration of the probe loop neither returns nor raises:
  the slot at the hashed index holds an entry with another key pair, and
  \<^verbatim>\<open>len(sub_table)\<close> exceeds 1.
\<close>

definition blocked :: "string \<Rightarrow> string \<Rightarrow> 'v LinearProbeTable option \<Rightarrow> bool" where
  "blocked key1 key2 sub_table =
     (case hash2 key2 sub_table of
        Inl _ \<Rightarrow> False
      | Inr h \<Rightarrow>
          (case sub_slot sub_table h of
             Inl _ \<Rightarrow> False
           | Inr None \<Rightarrow> False
           | Inr (Some e) \<Rightarrow>
               \<not> (fst e = key1 \<and> fst (snd e) = key2) \<and>
               (case sub_len sub_table of
                  Inl _ \<Rightarrow> False
                | Inr PyMethod \<Rightarrow> False
                | Inr (PyInt n) \<Rightarrow> 1 < n)))"

subsection \<open>Two concrete tables\<close>

text \<open>The table that \<^verbatim>\<open>DoubleKeyTable(sizes=[5])\<close> builds.\<close>

definition fresh_table :: "nat DoubleKeyTable" where
  "fresh_table =
     \<lparr>TABLE_SIZES = [5], size_index = 0,
      table = [Some \<lparr>slots = [None, None, None, None, None], count = 0\<rparr>,
               None, None, None, None],
      num_entries = 0, load_factor = 0\<rparr>"

text \<open>
  The same table with two entries under the empty first key, stored in slots 0 and 1 of
  the inner table: second keys \<^verbatim>\<open>"x"\<close> and \<^verbatim>\<open>"ab"\<close>. Both \<^verbatim>\<open>""\<close> and \<^verbatim>\<open>"ab"\<close> hash
  to slot 0 at capacity 5.
\<close>

definition crowded_table :: "nat DoubleKeyTable" where
  "crowded_table =
     \<lparr>TABLE_SIZES = [5], size_index = 0,
      table = [Some \<lparr>slots = [Some ('''', ''x'', 7), Some ('''', ''ab'', 8), None, None, None],
                     count = 2\<rparr>,
               None, None, None, None],
      num_entries = 2, load_factor = 0\<rparr>"

section \<open>Properties\<close>

subsection \<open>Construction\<close>

lemma list_get_error: "list_get xs i = Inl e \<Longrightarrow> e = IndexError"
  by (simp add: list_get_def split: if_splits)

lemma array_set_cases:
  "array_set xs (int i) v = (if i < length xs then Inr (xs[i := v]) else Inl IndexError)"
  by (simp add: array_set_def)

text \<open>
  The outer array never grows, so once the loop is due to visit the index equal to its
  length, the construction ends in \<^verbatim>\<open>IndexError\<close> (at that write, or earlier at a read
  of a too short \<^verbatim>\<open>internal_sizes\<close>).
\<close>

lemma init_fill_overflow:
  "length tbl \<in> set idxs \<Longrightarrow> init_fill sizes internal_sizes idxs tbl = Inl IndexError"
proof (induction idxs arbitrary: tbl)
  case Nil
  then show ?case by simp
next
  case (Cons i rest)
  let ?size = "case internal_sizes of Some isz \<Rightarrow> list_get isz i | None \<Rightarrow> list_get sizes i"
  show ?case
  proof (cases ?size)
    case (Inl e)
    then have "e = IndexError"
      by (auto split: option.splits dest: list_get_error)
    with Inl show ?thesis by simp
  next
    case (Inr n)
    show ?thesis
    proof (cases "i < length tbl")
      case True
      with Cons.prems have "length (tbl[i := Some (new_LinearProbeTable n)]) \<in> set rest"
        by auto
      then have "init_fill sizes internal_sizes rest (tbl[i := Some (new_LinearProbeTable n)])
                   = Inl IndexError"
        by (rule Cons.IH)
      with Inr True show ?thesis by (simp add: array_set_cases)
    next
      case False
      with Inr show ?thesis by (simp add: array_set_cases)
    qed
  qed
qed

lemma init_overflow:
  assumes "s < length (s # rest)"
  shows "init (Some (s # rest)) internal_sizes = Inl IndexError"
proof -
  from assms
  have "length (ArrayR s :: 'a LinearProbeTable option list) \<in> set [0..<length (s # rest)]"
    by (auto simp: ArrayR_def)
  then have "init_fill (s # rest) internal_sizes [0..<length (s # rest)]
               (ArrayR s :: 'a LinearProbeTable option list) = Inl IndexError"
    by (rule init_fill_overflow)
  then show ?thesis
    by (simp add: init_def list_get_def del: upt_Suc)
qed

text \<open>
  C9: for every size sequence whose length exceeds its first element, and for the default
  \<^verbatim>\<open>TABLE_SIZES\<close> (19 sizes, the first one 5), \<^verbatim>\<open>__init__\<close> raises \<^verbatim>\<open>IndexError\<close> and
  builds no table, whatever \<^verbatim>\<open>internal_sizes\<close> is.
\<close>

theorem init_out_of_bounds:
  "(s < length (s # rest) \<longrightarrow>
      (init (Some (s # rest)) internal_sizes :: error + 'v DoubleKeyTable) = Inl IndexError) \<and>
   (init None internal_sizes :: error + 'v DoubleKeyTable) = Inl IndexError"
proof
  show "s < length (s # rest) \<longrightarrow>
      (init (Some (s # rest)) internal_sizes :: error + 'v DoubleKeyTable) = Inl IndexError"
    using init_overflow by blast
next
  have "(init (Some DEFAULT_TABLE_SIZES) internal_sizes :: error + 'v DoubleKeyTable)
          = Inl IndexError"
    unfolding DEFAULT_TABLE_SIZES_def by (rule init_overflow) simp
  then show "(init None internal_sizes :: error + 'v DoubleKeyTable) = Inl IndexError"
    by (simp add: init_def)
qed

theorem init_out_of_bounds_witness:
  "(2::nat) < length [2, 3, 5::nat] \<and>
   (init (Some [2, 3, 5]) None :: error + nat DoubleKeyTable) = Inl IndexError"
proof -
  have h: "(2::nat) < length (2 # [3, 5::nat])" by simp
  from init_out_of_bounds [of 2 "[3, 5]" None]
  have "2 < length (2 # [3, 5::nat]) \<longrightarrow>
      (init (Some (2 # [3, 5])) None :: error + nat DoubleKeyTable) = Inl IndexError" ..
  with h show ?thesis by simp
qed

subsection \<open>Hashing\<close>

lemma hash1_empty: "hash1 self [] = Inr 0"
  by (simp add: hash1_def)

lemma hash1_nonempty: "hash1 self (c # cs) = Inl TypeError"
  by (simp add: hash1_def table_size_attr_def py_mod_def)

text \<open>
  \<^verbatim>\<open>hash2\<close> reads the capacity of the inner table, an integer. From capacity 2 on it
  returns a value in \<open>[0, capacity)\<close>, and it depends on the table only through the
  capacity.
\<close>

lemma hash_chars_range:
  assumes "2 \<le> n" "0 \<le> val" "val < n"
  shows "\<exists>v. hash_chars (Inr (PyInt n)) key val a = Inr v \<and> 0 \<le> v \<and> v < n"
  using assms(2,3)
proof (induction key arbitrary: val a)
  case Nil
  then show ?case by simp
next
  case (Cons c cs)
  let ?val = "(of_char c + a * val) mod n"
  let ?a = "(a * HASH_BASE) mod (n - 1)"
  from assms(1) have "0 \<le> ?val" "?val < n" by simp_all
  then have "\<exists>v. hash_chars (Inr (PyInt n)) cs ?val ?a = Inr v \<and> 0 \<le> v \<and> v < n"
    by (rule Cons.IH)
  with assms(1) show ?case
    by (simp add: py_mod_def py_sub_def)
qed

lemma hash2_range:
  assumes "2 \<le> length (slots s)"
  shows "\<exists>v. hash2 key (Some s) = Inr v \<and> 0 \<le> v \<and> v < int (length (slots s))"
proof -
  from assms have "2 \<le> int (length (slots s))" by simp
  then have "\<exists>v. hash_chars (Inr (PyInt (int (length (slots s))))) key 0 31415 = Inr v
                \<and> 0 \<le> v \<and> v < int (length (slots s))"
    by (rule hash_chars_range) (use assms in auto)
  then show ?thesis
    by (simp add: hash2_def sub_table_size_attr_def)
qed

lemma hash2_capacity_only:
  "length (slots s) = length (slots s') \<Longrightarrow> hash2 key (Some s) = hash2 key (Some s')"
  by (simp add: hash2_def sub_table_size_attr_def)

lemma hash2_capacity_one: "length (slots s) = 1 \<Longrightarrow> hash2 (c # cs) (Some s) = Inl ZeroDivisionError"
  by (simp add: hash2_def sub_table_size_attr_def py_mod_def py_sub_def)

lemma hash2_ab_5: "hash2 ''ab'' (Some \<lparr>slots = [a, b, c, d, e], count = k\<rparr>) = Inr 0"
  by (simp add: hash2_def sub_table_size_attr_def py_mod_def py_sub_def HASH_BASE_def)

text \<open>
  C5: the hash functions compute the polynomial rolling hash and return a value in
  \<open>[0, capacity)\<close>. For \<^verbatim>\<open>hash1\<close> the code does not: on the key \<^verbatim>\<open>"a"\<close> it raises
  \<^verbatim>\<open>TypeError\<close>, because \<^verbatim>\<open>self.table_size\<close> is a bound method and not a number.
\<close>

theorem hash1_rejects_nonempty_key: "hash1 fresh_table ''a'' = Inl TypeError"
  by (rule hash1_nonempty)

subsection \<open>Probing\<close>

lemma next_slot_differs:
  fixes h n :: int
  assumes "0 \<le> h" "h < n" "1 < n"
  shows "(h + 1) mod n \<noteq> h"
proof (cases "h + 1 < n")
  case True
  then show ?thesis using assms by simp
next
  case False
  with assms have "h + 1 = n" by simp
  then have "(h + 1) mod n = 0" by simp
  with assms \<open>h + 1 = n\<close> show ?thesis by simp
qed

lemma blockedE:
  assumes "blocked key1 key2 sub_table"
  obtains h e n where "hash2 key2 sub_table = Inr h" "sub_slot sub_table h = Inr (Some e)"
      "\<not> (fst e = key1 \<and> fst (snd e) = key2)" "sub_len sub_table = Inr (PyInt n)" "1 < n"
  using assms unfolding blocked_def
  by (auto split: sum.splits option.splits pyval.splits)

text \<open>
  A blocked iteration ends in the recursive call with the same arguments, so by fixpoint
  induction a call that returns was never blocked.
\<close>

lemma probe_loop_returns_unblocked:
  assumes ret: "probe_loop key1 key2 is_insert top_index sub_table = Some y"
  shows "\<not> blocked key1 key2 sub_table"
proof (rule probe_loop.raw_induct
    [where P = "\<lambda>k1 k2 ins top sub y. \<not> blocked k1 k2 sub", OF _ ret])
  fix f :: "string \<Rightarrow> string \<Rightarrow> bool \<Rightarrow> int \<Rightarrow> 'a LinearProbeTable option
              \<Rightarrow> (error + int \<times> int) option"
  fix k1 k2 ins top sub r
  assume IH: "\<And>k1 k2 ins top sub r. f k1 k2 ins top sub = Some r \<Longrightarrow> \<not> blocked k1 k2 sub"
  assume body: "(case hash2 k2 sub of
        Inl e \<Rightarrow> Some (Inl e)
      | Inr sub_index \<Rightarrow>
          (case sub_slot sub sub_index of
             Inl e \<Rightarrow> Some (Inl e)
           | Inr slot \<Rightarrow>
               if \<not> ins \<and> slot = None then Some (Inl KeyError)
               else if slot = None then Some (Inr (top, sub_index))
               else if fst (the slot) = k1 \<and> fst (snd (the slot)) = k2
                 then Some (Inr (top, sub_index))
               else
                 (case sub_len sub of
                    Inl e \<Rightarrow> Some (Inl e)
                  | Inr n \<Rightarrow>
                      (case py_mod (sub_index + 1) n of
                         Inl e \<Rightarrow> Some (Inl e)
                       | Inr sub_index' \<Rightarrow>
                           (case hash2 k2 sub of
                              Inl e \<Rightarrow> Some (Inl e)
                            | Inr h \<Rightarrow>
                                if sub_index' = h then Some (Inl FullError)
                                else f k1 k2 ins top sub))))) = Some r"
  show "\<not> blocked k1 k2 sub"
  proof
    assume blk: "blocked k1 k2 sub"
    then obtain h e n where b: "hash2 k2 sub = Inr h" "sub_slot sub h = Inr (Some e)"
      "\<not> (fst e = k1 \<and> fst (snd e) = k2)" "sub_len sub = Inr (PyInt n)" "1 < n"
      by (rule blockedE)
    from b(2,4) obtain s where s: "sub = Some s" "n = int (length (slots s))"
      by (auto simp: sub_slot_def sub_len_def split: option.splits)
    from b(2) s have "0 \<le> h" "h < n"
      by (auto simp: sub_slot_def array_get_def split: if_splits)
    then have "(h + 1) mod n \<noteq> h"
      using b(5) by (rule next_slot_differs)
    with body b have "f k1 k2 ins top sub = Some r"
      by (simp add: py_mod_def)
    then have "\<not> blocked k1 k2 sub" by (rule IH)
    with blk show False by contradiction
  qed
qed

lemma probe_loop_stuck:
  assumes "blocked key1 key2 sub_table"
  shows "probe_loop key1 key2 is_insert top_index sub_table = None"
proof (cases "probe_loop key1 key2 is_insert top_index sub_table")
  case None
  then show ?thesis .
next
  case (Some y)
  then have "\<not> blocked key1 key2 sub_table" by (rule probe_loop_returns_unblocked)
  with assms show ?thesis by contradiction
qed

lemma linear_probe_nonempty_key1:
  "linear_probe self (c # cs) key2 is_insert = Some (Inl TypeError)"
  by (simp add: linear_probe_def hash1_nonempty)

text \<open>
  C10: in a lookup and in an insert alike, when the inner slot at the hashed index of
  \<open>key2\<close> holds an entry whose key pair is not \<open>(key1, key2)\<close> and the length of the inner
  table exceeds 1, \<^verbatim>\<open>_linear_probe\<close> never returns and never raises.
\<close>

theorem linear_probe_never_returns:
  assumes "hash1 self key1 = Inr top_index"
    and "array_get (table self) top_index = Inr sub_table"
    and "hash2 key2 sub_table = Inr h"
    and "sub_slot sub_table h = Inr (Some e)"
    and "\<not> (fst e = key1 \<and> fst (snd e) = key2)"
    and "sub_len sub_table = Inr (PyInt n)"
    and "1 < n"
  shows "linear_probe self key1 key2 is_insert = None"
proof -
  from assms(3-7) have "blocked key1 key2 sub_table"
    by (simp add: blocked_def)
  then have "probe_loop key1 key2 is_insert top_index sub_table = None"
    by (rule probe_loop_stuck)
  with assms(1,2) show ?thesis
    by (simp add: linear_probe_def)
qed

theorem linear_probe_never_returns_witness:
  "linear_probe crowded_table '''' ''ab'' True = None \<and>
   linear_probe crowded_table '''' '''' False = None"
proof -
  let ?sub = "Some \<lparr>slots = [Some ('''', ''x'', 7::nat), Some ('''', ''ab'', 8), None, None, None],
                     count = 2\<rparr>"
  have a1: "hash1 crowded_table '''' = Inr 0" by (rule hash1_empty)
  have a2: "array_get (table crowded_table) 0 = Inr ?sub"
    by (simp add: crowded_table_def array_get_def)
  have a3: "hash2 ''ab'' ?sub = Inr 0" by (rule hash2_ab_5)
  have b3: "hash2 '''' ?sub = Inr 0" by (simp add: hash2_def)
  have a4: "sub_slot ?sub 0 = Inr (Some ('''', ''x'', 7))"
    by (simp add: sub_slot_def array_get_def)
  have a5: "\<not> (fst ('''', ''x'', 7::nat) = '''' \<and> fst (snd ('''', ''x'', 7::nat)) = ''ab'')"
    by simp
  have b5: "\<not> (fst ('''', ''x'', 7::nat) = '''' \<and> fst (snd ('''', ''x'', 7::nat)) = '''')"
    by simp
  have a6: "sub_len ?sub = Inr (PyInt 5)" by (simp add: sub_len_def)
  have a7: "(1::int) < 5" by simp
  from linear_probe_never_returns [OF a1 a2 a3 a4 a5 a6 a7, of True]
    linear_probe_never_returns [OF a1 a2 b3 a4 b5 a6 a7, of False]
  show ?thesis by simp
qed

text \<open>
  C2: the probe scans forward one slot at a time and returns the first slot that holds
  the key, or the first empty slot on insert. The code does not: in \<open>crowded_table\<close> the
  pair \<^verbatim>\<open>("", "ab")\<close> sits in slot 1, right after its hashed slot 0, and the lookup never
  returns; an insert of \<^verbatim>\<open>("", "")\<close>, whose first empty slot on the path is slot 2, never
  returns either.
\<close>

theorem probe_stuck_behind_other_key:
  "linear_probe crowded_table '''' ''ab'' False = None \<and>
   linear_probe crowded_table '''' '''' True = None"
proof -
  let ?sub = "Some \<lparr>slots = [Some ('''', ''x'', 7::nat), Some ('''', ''ab'', 8), None, None, None],
                     count = 2\<rparr>"
  have top: "hash1 crowded_table '''' = Inr 0" by (rule hash1_empty)
  have sub: "array_get (table crowded_table) 0 = Inr ?sub"
    by (simp add: crowded_table_def array_get_def)
  have "blocked '''' ''ab'' ?sub"
    by (simp add: blocked_def hash2_ab_5 sub_slot_def array_get_def sub_len_def)
  then have lookup: "probe_loop '''' ''ab'' False 0 ?sub = None"
    by (rule probe_loop_stuck)
  have "blocked '''' '''' ?sub"
    by (simp add: blocked_def hash2_def sub_slot_def array_get_def sub_len_def)
  then have insert: "probe_loop '''' '''' True 0 ?sub = None"
    by (rule probe_loop_stuck)
  from top sub lookup insert show ?thesis
    by (simp add: linear_probe_def)
qed

subsection \<open>Lookup\<close>

text \<open>
  C3: \<^verbatim>\<open>__getitem__\<close> raises \<^verbatim>\<open>KeyError\<close> for an absent pair and returns the stored value
  for a present one. The code does neither: in the empty table of \<^verbatim>\<open>sizes=[5]\<close> the absent
  pair \<^verbatim>\<open>("a", "b")\<close> ends in \<^verbatim>\<open>TypeError\<close>, and in \<open>crowded_table\<close> the read of the
  stored pair \<^verbatim>\<open>("", "ab")\<close> never returns.
\<close>

theorem getitem_neither_key_error_nor_value:
  "getitem fresh_table (''a'', ''b'') = Some (Inl TypeError) \<and>
   getitem crowded_table ('''', ''ab'') = None"
proof -
  let ?sub = "Some \<lparr>slots = [Some ('''', ''x'', 7::nat), Some ('''', ''ab'', 8), None, None, None],
                     count = 2\<rparr>"
  have absent: "getitem fresh_table (''a'', ''b'') = Some (Inl TypeError)"
    by (simp add: getitem_def linear_probe_nonempty_key1)
  have "blocked '''' ''ab'' ?sub"
    by (simp add: blocked_def hash2_ab_5 sub_slot_def array_get_def sub_len_def)
  then have "probe_loop '''' ''ab'' False 0 ?sub = None"
    by (rule probe_loop_stuck)
  then have "linear_probe crowded_table '''' ''ab'' False = None"
    by (simp add: linear_probe_def hash1_empty crowded_table_def array_get_def)
  then have present: "getitem crowded_table ('''', ''ab'') = None"
    by (simp add: getitem_def)
  from absent present show ?thesis ..
qed

text \<open>
  C6: \<^verbatim>\<open>__contains__\<close> never fails. The code does: its \<^verbatim>\<open>try\<close> catches \<^verbatim>\<open>KeyError\<close>
  only, and for the pair \<^verbatim>\<open>("a", "b")\<close> the \<^verbatim>\<open>TypeError\<close> of \<^verbatim>\<open>hash1\<close> passes through.
\<close>

theorem contains_raises_type_error:
  "contains fresh_table (''a'', ''b'') = Some (Inl TypeError)"
  by (simp add: contains_def getitem_def linear_probe_nonempty_key1)

subsection \<open>The unimplemented methods\<close>

text \<open>
  C1: a write followed by a read of the same pair returns the written value. The code
  does not: \<^verbatim>\<open>__setitem__\<close> raises \<^verbatim>\<open>NotImplementedError\<close> for every table, pair and
  value, so the read is never reached.
\<close>

theorem set_then_get_raises:
  "set_then_get self key data = Some (Inl NotImplementedError)"
  by (simp add: set_then_get_def setitem_def)

text \<open>
  C8: \<^verbatim>\<open>__len__\<close> returns \<open>num_entries\<close>. The code does not: it raises
  \<^verbatim>\<open>NotImplementedError\<close> for every table.
\<close>

theorem len_raises: "len self = Inl NotImplementedError"
  by (simp add: len_def)

text \<open>
  C7: a \<^verbatim>\<open>__setitem__\<close> that raises and a \<^verbatim>\<open>__delitem__\<close> that raises each leave the whole
  table as it was: the same slots, the same counters.
\<close>

theorem failed_update_keeps_table:
  "(setitem self key data = (self', Inl e) \<longrightarrow> self' = self) \<and>
   (delitem self key = (self'', Inl e') \<longrightarrow> self'' = self)"
  by (simp add: setitem_def delitem_def)

theorem failed_update_keeps_table_witness:
  "setitem fresh_table (''a'', ''b'') 1 = (fresh_table, Inl NotImplementedError) \<and>
   delitem fresh_table (''a'', ''b'') = (fresh_table, Inl NotImplementedError)"
proof -
  obtain t1 r1 where s: "setitem fresh_table (''a'', ''b'') 1 = (t1, r1)"
    by (cases "setitem fresh_table (''a'', ''b'') 1")
  then have r1: "r1 = Inl NotImplementedError" by (simp add: setitem_def)
  obtain t2 r2 where d: "delitem fresh_table (''a'', ''b'') = (t2, r2)"
    by (cases "delitem fresh_table (''a'', ''b'')")
  then have r2: "r2 = Inl NotImplementedError" by (simp add: delitem_def)
  from failed_update_keeps_table
    [of fresh_table "(''a'', ''b'')" 1 t1 NotImplementedError t2 NotImplementedError]
  have "t1 = fresh_table" and "t2 = fresh_table"
    using s d r1 r2 by simp_all
  with s d r1 r2 show ?thesis by simp
qed

subsection \<open>The entry counter\<close>

lemma init_fill_unoccupied:
  assumes "init_fill sizes internal_sizes idxs tbl = Inr tbl'"
    and "\<forall>slot\<in>set tbl. g slot = (0::int)"
    and "\<And>n. g (Some (new_LinearProbeTable n)) = 0"
  shows "\<forall>slot\<in>set tbl'. g slot = 0"
  using assms(1,2)
proof (induction idxs arbitrary: tbl)
  case Nil
  then show ?case by simp
next
  case (Cons i rest)
  from Cons.prems(1) obtain n where
    rest: "init_fill sizes internal_sizes rest (tbl[i := Some (new_LinearProbeTable n)]) = Inr tbl'"
    by (auto simp: array_set_cases split: sum.splits if_splits)
  have "\<forall>slot\<in>set (tbl[i := Some (new_LinearProbeTable n)]). g slot = 0"
  proof
    fix slot
    assume "slot \<in> set (tbl[i := Some (new_LinearProbeTable n)])"
    then have "slot = Some (new_LinearProbeTable n) \<or> slot \<in> set tbl"
      using set_update_subset_insert [of tbl i] by auto
    with Cons.prems(2) assms(3) show "g slot = 0" by auto
  qed
  with rest show ?case by (rule Cons.IH)
qed

lemma sum_list_all_zero: "\<forall>x\<in>set xs. g x = (0::int) \<Longrightarrow> sum_list (map g xs) = 0"
  by (induction xs) simp_all

lemma init_totals:
  assumes "init sizes internal_sizes = Inr self"
  shows "num_entries self = 0 \<and> counted_total self = 0 \<and> occupied_total self = 0"
proof -
  let ?ts = "case sizes of None \<Rightarrow> DEFAULT_TABLE_SIZES | Some s \<Rightarrow> s"
  from assms obtain cap tbl where
    fill: "init_fill ?ts internal_sizes [0..<length ?ts] (ArrayR cap) = Inr tbl"
    and self: "self = \<lparr>TABLE_SIZES = ?ts, size_index = 0, table = tbl,
                      num_entries = 0, load_factor = 0\<rparr>"
    by (auto simp: init_def Let_def split: sum.splits)
  let ?c = "\<lambda>slot :: 'a LinearProbeTable option. case slot of None \<Rightarrow> 0 | Some s \<Rightarrow> count s"
  let ?o = "\<lambda>slot :: 'a LinearProbeTable option. case slot of None \<Rightarrow> 0
              | Some s \<Rightarrow> int (length (filter (\<lambda>x. x \<noteq> None) (slots s)))"
  have "\<forall>slot\<in>set tbl. ?c slot = 0"
    by (rule init_fill_unoccupied [OF fill]) (simp_all add: ArrayR_def new_LinearProbeTable_def)
  then have c: "sum_list (map ?c tbl) = 0" by (rule sum_list_all_zero)
  have "\<forall>slot\<in>set tbl. ?o slot = 0"
    by (rule init_fill_unoccupied [OF fill]) (simp_all add: ArrayR_def new_LinearProbeTable_def)
  then have o: "sum_list (map ?o tbl) = 0" by (rule sum_list_all_zero)
  from self c o show ?thesis
    by (simp add: counted_total_def occupied_total_def)
qed

lemma init_5: "init (Some [5]) None = Inr fresh_table"
  by (simp add: init_def list_get_def array_set_def ArrayR_def new_LinearProbeTable_def
      fresh_table_def eval_nat_numeral)

text \<open>
  C4: in every state reachable from a finished construction by \<^verbatim>\<open>__setitem__\<close> and
  \<^verbatim>\<open>__delitem__\<close> calls, \<open>num_entries\<close> equals the sum of the live-entry counts of the
  inner tables, taken from their counters and from their occupied slots alike.
\<close>

theorem num_entries_is_sum_of_live_counts:
  assumes "reachable self"
  shows "num_entries self = counted_total self \<and> num_entries self = occupied_total self"
  using assms
proof (induction rule: reachable.induct)
  case (constructed sizes internal_sizes self)
  then show ?case using init_totals by fastforce
next
  case (after_set self key data self' r)
  then show ?case by (simp add: setitem_def)
next
  case (after_delete self key self' r)
  then show ?case by (simp add: delitem_def)
qed

theorem num_entries_is_sum_of_live_counts_witness:
  "reachable (fst (delitem (fst (setitem fresh_table (''k1'', ''k2'') 3)) (''k1'', ''k2''))) \<and>
   num_entries (fst (delitem (fst (setitem fresh_table (''k1'', ''k2'') 3)) (''k1'', ''k2'')))
     = counted_total fresh_table \<and>
   num_entries fresh_table = occupied_total fresh_table"
proof -
  let ?t1 = "fst (setitem fresh_table (''k1'', ''k2'') 3)"
  let ?t2 = "fst (delitem ?t1 (''k1'', ''k2''))"
  have r0: "reachable fresh_table"
    using init_5 by (rule reachable.constructed)
  have r1: "reachable ?t1"
    by (rule reachable.after_set [OF r0, where r = "Inl NotImplementedError"])
      (simp add: setitem_def)
  have r2: "reachable ?t2"
    by (rule reachable.after_delete [OF r1, where r = "Inl NotImplementedError"])
      (simp add: delitem_def)
  have same: "?t2 = fresh_table"
    by (simp add: setitem_def delitem_def)
  from num_entries_is_sum_of_live_counts [OF r2] r2 same show ?thesis by simp
qed

end
